theory Spec2Isabelle
  imports Main "HOL-Library.AList" "HOL-Library.Sublist"
begin

section \<open>Python values\<close>

text \<open>
  The module \<^verbatim>\<open>prefect/utilities/collections.py\<close> works on Python dictionaries, on its
  own class \<^verbatim>\<open>DotDict\<close> and on the containers \<^verbatim>\<open>list\<close>, \<^verbatim>\<open>tuple\<close> and \<^verbatim>\<open>set\<close>.

  A dictionary key is a hashable object. Keys are modelled up to Python's \<^verbatim>\<open>==\<close>, which is
  the equality a dictionary uses: a \<^verbatim>\<open>tuple\<close> and a \<^verbatim>\<open>CompoundKey\<close> (a subclass of
  \<^verbatim>\<open>tuple\<close> that overrides nothing) with equal elements are the same key, so both are a
  \<open>KTuple\<close>.
\<close>

datatype key = KStr string | KInt int | KTuple "key list"

text \<open>The two mapping classes of the module: the built-in \<^verbatim>\<open>dict\<close> and \<^verbatim>\<open>DotDict\<close>.\<close>

datatype mapping_class = DictT | DotDictT

text \<open>
  A mapping is its class and its entries in insertion order (the iteration order of a
  Python dictionary); a \<^verbatim>\<open>DotDict\<close> is its \<^verbatim>\<open>__dict__\<close>. Values are immutable trees:
  sharing of one mutable object between two places of a value is not represented here
  (section ``merge\_dicts on a store'' has the store).

  The module tests its arguments with \<^verbatim>\<open>isinstance\<close> and calls what it finds on them, so two
  kinds of objects of classes defined elsewhere are values too. \<open>VSubclass base name xs\<close>
  is an instance of the class \<open>name\<close>, a subclass of \<^verbatim>\<open>list\<close>, \<^verbatim>\<open>tuple\<close> or \<^verbatim>\<open>set\<close> (such as
  a named tuple) that keeps the methods of its base, with its elements \<open>xs\<close>.
  \<open>VCallable name\<close> is a callable object (a function, a class). What calling a class or
  a callable does is given to the functions below as a parameter.
\<close>

datatype seq_class = ListT | TupleT | SetT

datatype val =
    VNone
  | VInt int
  | VStr string
  | VList "val list"
  | VTuple "val list"
  | VSet "val list"
  | VMapping mapping_class "(key \<times> val) list"
  | VSubclass seq_class string "val list"
  | VCallable string

abbreviation VDict :: "(key \<times> val) list \<Rightarrow> val" where
  "VDict \<equiv> VMapping DictT"

abbreviation VDotDict :: "(key \<times> val) list \<Rightarrow> val" where
  "VDotDict \<equiv> VMapping DotDictT"

type_synonym items = "(key \<times> val) list"

datatype error =
  ValueError | TypeError | KeyError | IndexError | AttributeError | RecursionError

section \<open>The built-in dict\<close>

text \<open>
  \<^verbatim>\<open>d[k] = v\<close> replaces the value of an existing key in place and appends a new key at the
  end: this is \<^const>\<open>AList.update\<close>. \<^verbatim>\<open>d.get(k)\<close> is \<^const>\<open>map_of\<close>, with \<open>None\<close> for the
  default. The operations that do not look at the values are written for any type of
  values \<open>'v\<close>: for the values \<^typ>\<open>val\<close>, and for the references of the store below.
\<close>

definition dict_setitem :: "(key \<times> 'v) list \<Rightarrow> key \<Rightarrow> 'v \<Rightarrow> (key \<times> 'v) list" where
  "dict_setitem d k v = AList.update k v d"

definition dict_get :: "(key \<times> 'v) list \<Rightarrow> key \<Rightarrow> 'v option" where
  "dict_get d k = map_of d k"

definition keys :: "(key \<times> 'v) list \<Rightarrow> key list" where
  "keys d = map fst d"

section \<open>DotDict\<close>

text \<open>
  Modelled from the spec: the attribute table of \<^verbatim>\<open>collections.abc.MutableMapping\<close> is
  code of the Python standard library, not of the repository. The spec names the
  method-like names \<^verbatim>\<open>keys\<close>, \<^verbatim>\<open>items\<close>, \<^verbatim>\<open>get\<close>, \<^verbatim>\<open>update\<close> as reserved by the base
  mapping capability set; the full table below is the one of CPython 3.11:
  \<open>MutableMapping_attrs\<close> are the names found through the classes of
  \<^verbatim>\<open>MutableMapping.__mro__\<close>, \<open>ABCMeta_attrs\<close> the further names that
  \<^verbatim>\<open>hasattr(MutableMapping, name)\<close> finds through the metaclass.
\<close>

definition MutableMapping_attrs :: "string list" where
  "MutableMapping_attrs =
    [''_MutableMapping__marker'', ''__abstractmethods__'', ''__annotations__'',
     ''__class__'', ''__class_getitem__'', ''__contains__'', ''__delattr__'',
     ''__delitem__'', ''__dir__'', ''__doc__'', ''__eq__'', ''__format__'', ''__ge__'',
     ''__getattribute__'', ''__getitem__'', ''__getstate__'', ''__gt__'', ''__hash__'',
     ''__init__'', ''__init_subclass__'', ''__iter__'', ''__le__'', ''__len__'',
     ''__lt__'', ''__module__'', ''__ne__'', ''__new__'', ''__reduce__'',
     ''__reduce_ex__'', ''__repr__'', ''__reversed__'', ''__setattr__'',
     ''__setitem__'', ''__sizeof__'', ''__slots__'', ''__str__'', ''__subclasshook__'',
     ''_abc_impl'', ''clear'', ''get'', ''items'', ''keys'', ''pop'', ''popitem'',
     ''setdefault'', ''update'', ''values'']"

definition ABCMeta_attrs :: "string list" where
  "ABCMeta_attrs =
    [''__base__'', ''__bases__'', ''__basicsize__'', ''__call__'', ''__dict__'',
     ''__dictoffset__'', ''__flags__'', ''__instancecheck__'', ''__itemsize__'',
     ''__mro__'', ''__name__'', ''__or__'', ''__prepare__'', ''__qualname__'',
     ''__ror__'', ''__subclasscheck__'', ''__subclasses__'', ''__text_signature__'',
     ''__weakrefoffset__'', ''_abc_caches_clear'', ''_abc_registry_clear'',
     ''_dump_registry'', ''mro'', ''register'']"

text \<open>\<^verbatim>\<open>hasattr(MutableMapping, key)\<close> for a key that is a string.\<close>

definition hasattr_MutableMapping :: "string \<Rightarrow> bool" where
  "hasattr_MutableMapping s \<longleftrightarrow> s \<in> set (MutableMapping_attrs @ ABCMeta_attrs)"

text \<open>
  \<^verbatim>\<open>__getitem__\<close>: \<^verbatim>\<open>return self.__dict__[key]\<close>, a \<^verbatim>\<open>KeyError\<close> for a missing key.
\<close>

definition DotDict_getitem :: "items \<Rightarrow> key \<Rightarrow> error + val" where
  "DotDict_getitem self k = (case map_of self k of None \<Rightarrow> Inl KeyError | Some v \<Rightarrow> Inr v)"

text \<open>
  \<^verbatim>\<open>__setitem__\<close>: \<^verbatim>\<open>hasattr\<close> raises \<^verbatim>\<open>TypeError\<close> (attribute name must be string) for a
  key that is not a string; for a name it finds, the method raises
  \<^verbatim>\<open>ValueError("no sir")\<close>; otherwise the entry is stored in \<^verbatim>\<open>self.__dict__\<close>.
\<close>

fun DotDict_setitem :: "(key \<times> 'v) list \<Rightarrow> key \<Rightarrow> 'v \<Rightarrow> error + (key \<times> 'v) list" where
  "DotDict_setitem self (KStr s) v =
     (if hasattr_MutableMapping s then Inl ValueError else Inr (dict_setitem self (KStr s) v))"
| "DotDict_setitem self k v = Inl TypeError"

text \<open>\<^verbatim>\<open>__setattr__\<close>: \<^verbatim>\<open>self[attr] = value\<close>; an attribute name is a string.\<close>

definition DotDict_setattr :: "items \<Rightarrow> string \<Rightarrow> val \<Rightarrow> error + items" where
  "DotDict_setattr self attr v = DotDict_setitem self (KStr attr) v"

text \<open>\<^verbatim>\<open>__iter__\<close>, \<^verbatim>\<open>__delitem__\<close>, \<^verbatim>\<open>__len__\<close>.\<close>

definition DotDict_iter :: "items \<Rightarrow> key list" where
  "DotDict_iter self = keys self"

definition DotDict_delitem :: "items \<Rightarrow> key \<Rightarrow> error + items" where
  "DotDict_delitem self k =
     (if k \<in> set (keys self) then Inr (AList.delete k self) else Inl KeyError)"

definition DotDict_len :: "items \<Rightarrow> nat" where
  "DotDict_len self = length self"

text \<open>
  The mixin methods that \<^verbatim>\<open>DotDict\<close> inherits from \<^verbatim>\<open>MutableMapping\<close> are written in terms
  of the methods above. \<^verbatim>\<open>update(other)\<close> runs \<^verbatim>\<open>self[key] = other[key]\<close> for every key of
  \<open>other\<close> in order and stops at the first exception; \<^verbatim>\<open>get(key)\<close> catches the
  \<^verbatim>\<open>KeyError\<close> of \<^verbatim>\<open>self[key]\<close> and returns \<^verbatim>\<open>None\<close>; \<^verbatim>\<open>setdefault(key, default)\<close> returns
  \<^verbatim>\<open>self[key]\<close> or, after a \<^verbatim>\<open>KeyError\<close>, stores and returns the default.
\<close>

fun DotDict_update :: "(key \<times> 'v) list \<Rightarrow> (key \<times> 'v) list \<Rightarrow> error + (key \<times> 'v) list" where
  "DotDict_update self [] = Inr self"
| "DotDict_update self ((k, v) # other) =
     (case DotDict_setitem self k v of
        Inl e \<Rightarrow> Inl e
      | Inr self' \<Rightarrow> DotDict_update self' other)"


definition DotDict_setdefault :: "items \<Rightarrow> key \<Rightarrow> val \<Rightarrow> error + (val \<times> items)" where
  "DotDict_setdefault self k dflt =
     (case DotDict_getitem self k of
        Inr v \<Rightarrow> Inr (v, self)
      | Inl e \<Rightarrow>
         (case DotDict_setitem self k dflt of
            Inl e' \<Rightarrow> Inl e'
          | Inr self' \<Rightarrow> Inr (dflt, self')))"

text \<open>
  \<^verbatim>\<open>__init__(self, init_dict=None, **kwargs)\<close>: the instance starts with an empty
  \<^verbatim>\<open>__dict__\<close>; \<^verbatim>\<open>init_dict\<close> is used when it is truthy (given and not empty); the
  keyword arguments, whose names are strings, come second.
\<close>

definition DotDict_init ::
  "(key \<times> 'v) list option \<Rightarrow> (string \<times> 'v) list \<Rightarrow> error + (key \<times> 'v) list" where
  "DotDict_init init_dict kwargs =
     (case (case init_dict of
              None \<Rightarrow> Inr []
            | Some d \<Rightarrow> if d \<noteq> [] then DotDict_update [] d else Inr []) of
        Inl e \<Rightarrow> Inl e
      | Inr self \<Rightarrow> DotDict_update self (map (\<lambda>(s, v). (KStr s, v)) kwargs))"

text \<open>\<^verbatim>\<open>copy\<close>: \<^verbatim>\<open>return type(self)(self.__dict__.copy())\<close>.\<close>

definition DotDict_copy :: "(key \<times> 'v) list \<Rightarrow> error + (key \<times> 'v) list" where
  "DotDict_copy self = DotDict_init (Some self) []"

text \<open>
  Reading an attribute. \<^verbatim>\<open>DotDict\<close> defines neither \<^verbatim>\<open>__getattr__\<close> nor
  \<^verbatim>\<open>__getattribute__\<close>, so \<^verbatim>\<open>m.name\<close> is Python's default lookup: a data descriptor of
  the class wins, then comes the entry of \<^verbatim>\<open>self.__dict__\<close> (the storage of the mapping),
  then any other attribute of the class, then \<^verbatim>\<open>AttributeError\<close>. The class body and
  the bases give a \<^verbatim>\<open>DotDict\<close> three data descriptors, and, besides the attributes it
  inherits from \<^verbatim>\<open>MutableMapping\<close>, the method \<^verbatim>\<open>copy\<close>.
\<close>

datatype attr = Field val | ClassAttr string | Descriptor string

definition DotDict_data_descriptors :: "string list" where
  "DotDict_data_descriptors = [''__class__'', ''__dict__'', ''__weakref__'']"

definition DotDict_class_attrs :: "string list" where
  "DotDict_class_attrs = ''copy'' # MutableMapping_attrs"

definition DotDict_getattr :: "items \<Rightarrow> string \<Rightarrow> error + attr" where
  "DotDict_getattr self name =
     (if name \<in> set DotDict_data_descriptors then Inr (Descriptor name)
      else case map_of self (KStr name) of
             Some v \<Rightarrow> Inr (Field v)
           | None \<Rightarrow>
              if name \<in> set DotDict_class_attrs then Inr (ClassAttr name)
              else Inl AttributeError)"

text \<open>
  The instances a program can build: by the constructor and \<^verbatim>\<open>copy\<close>, and from an
  instance by item and attribute assignment, deletion, \<^verbatim>\<open>update\<close> and \<^verbatim>\<open>setdefault\<close>.
  The other mixin methods that change an instance (\<^verbatim>\<open>pop\<close>, \<^verbatim>\<open>popitem\<close>, \<^verbatim>\<open>clear\<close>) delete
  entries through \<^verbatim>\<open>__delitem__\<close>.
\<close>

inductive reachable :: "items \<Rightarrow> bool" where
  init: "DotDict_init init_dict kwargs = Inr self \<Longrightarrow> reachable self"
| setitem: "reachable self \<Longrightarrow> DotDict_setitem self k v = Inr self' \<Longrightarrow> reachable self'"
| setattr: "reachable self \<Longrightarrow> DotDict_setattr self a v = Inr self' \<Longrightarrow> reachable self'"
| delitem: "reachable self \<Longrightarrow> DotDict_delitem self k = Inr self' \<Longrightarrow> reachable self'"
| update: "reachable self \<Longrightarrow> DotDict_update self other = Inr self' \<Longrightarrow> reachable self'"
| setdefault:
    "reachable self \<Longrightarrow> DotDict_setdefault self k v = Inr (r, self') \<Longrightarrow> reachable self'"
| copy: "reachable self \<Longrightarrow> DotDict_copy self = Inr self' \<Longrightarrow> reachable self'"

text \<open>A key that \<^verbatim>\<open>__setitem__\<close> stores: a string that is no attribute of \<^verbatim>\<open>MutableMapping\<close>.\<close>

fun storable :: "key \<Rightarrow> bool" where
  "storable (KStr s) = (\<not> hasattr_MutableMapping s)"
| "storable k = False"

fun is_str :: "key \<Rightarrow> bool" where
  "is_str (KStr s) = True"
| "is_str k = False"

section \<open>to\_dotdict\<close>





section \<open>dict\_to\_flatdict and flatdict\_to\_dict\<close>

text \<open>
  \<^verbatim>\<open>class CompoundKey(tuple): pass\<close>. The keys of a flat dictionary are the only keys whose
  class the code inspects (\<^verbatim>\<open>isinstance(k, CompoundKey)\<close>), so a key of a flat dictionary
  carries its class: a \<open>CompoundKey\<close> with its elements, or any other key. The key that
  the dictionary compares and hashes is \<open>key_of\<close>; a \<open>CompoundKey\<close> equals the tuple of
  its elements.
\<close>

datatype fkey = Plain key | CompoundKey "key list"

fun key_of :: "fkey \<Rightarrow> key" where
  "key_of (Plain k) = k"
| "key_of (CompoundKey ks) = KTuple ks"

type_synonym flatdict = "(fkey \<times> val) list"

text \<open>
  \<^verbatim>\<open>d[k] = v\<close> on a flat dictionary: an equal key keeps its place and its key object and
  takes the new value. \<^verbatim>\<open>dict(items)\<close> stores the pairs one after the other.
\<close>

fun flatdict_setitem :: "flatdict \<Rightarrow> fkey \<Rightarrow> val \<Rightarrow> flatdict" where
  "flatdict_setitem [] k v = [(k, v)]"
| "flatdict_setitem ((k', v') # d) k v =
     (if key_of k' = key_of k then (k', v) # d else (k', v') # flatdict_setitem d k v)"

definition dict_of_items :: "(fkey \<times> val) list \<Rightarrow> flatdict" where
  "dict_of_items its = fold (\<lambda>(k, v) d. flatdict_setitem d k v) its []"

text \<open>
  \<^verbatim>\<open>dict_to_flatdict(dct, parent=None)\<close>. The function takes the entries \<^verbatim>\<open>dct.items()\<close>;
  \<^verbatim>\<open>parent or CompoundKey()\<close> replaces \<^verbatim>\<open>None\<close> and the empty key by the empty key. The
  loop \<open>dict_to_flatdict_loop\<close> carries the list \<^verbatim>\<open>items\<close>: a value that is an instance
  of \<^verbatim>\<open>dict\<close> extends it by the entries of its own flat dictionary, any other value (a
  \<^verbatim>\<open>DotDict\<close> too) appends one pair.
\<close>

fun dict_to_flatdict :: "items \<Rightarrow> key list option \<Rightarrow> flatdict"
  and dict_to_flatdict_loop :: "items \<Rightarrow> key list \<Rightarrow> (fkey \<times> val) list \<Rightarrow> (fkey \<times> val) list"
  where
  "dict_to_flatdict dct parent =
     dict_of_items
       (dict_to_flatdict_loop dct
          (case parent of None \<Rightarrow> [] | Some p \<Rightarrow> if p = [] then [] else p) [])"
| "dict_to_flatdict_loop [] parent its = its"
| "dict_to_flatdict_loop ((k, VMapping DictT v) # dct) parent its =
     dict_to_flatdict_loop dct parent (its @ dict_to_flatdict v (Some (parent @ [k])))"
| "dict_to_flatdict_loop ((k, v) # dct) parent its =
     dict_to_flatdict_loop dct parent (its @ [(CompoundKey (parent @ [k]), v)])"

text \<open>\<^verbatim>\<open>(dct_class or dict)()\<close>: a new empty mapping of the class asked for.\<close>

definition new_mapping :: "mapping_class option \<Rightarrow> val" where
  "new_mapping dct_class = VMapping (case dct_class of None \<Rightarrow> DictT | Some c \<Rightarrow> c) []"

text \<open>
  \<^verbatim>\<open>current_dict.setdefault(ki, default)\<close> on any object: the method of \<^verbatim>\<open>dict\<close>, the mixin
  method of a \<^verbatim>\<open>DotDict\<close>, and an \<^verbatim>\<open>AttributeError\<close> on an object that has no such method
  (\<^verbatim>\<open>None\<close>, numbers, strings, lists, tuples, sets, callables). The result is the value
  found or stored, and the object after the call.
\<close>

fun py_setdefault :: "val \<Rightarrow> key \<Rightarrow> val \<Rightarrow> error + (val \<times> val)" where
  "py_setdefault (VMapping DictT d) k dflt =
     (case dict_get d k of
        Some v \<Rightarrow> Inr (v, VDict d)
      | None \<Rightarrow> Inr (dflt, VDict (dict_setitem d k dflt)))"
| "py_setdefault (VMapping DotDictT d) k dflt =
     (case DotDict_setdefault d k dflt of
        Inl e \<Rightarrow> Inl e
      | Inr (v, d') \<Rightarrow> Inr (v, VDotDict d'))"
| "py_setdefault obj k dflt = Inl AttributeError"

text \<open>
  \<^verbatim>\<open>current_dict[k] = v\<close> on any object. A list takes an integer index, a negative one
  counting from the end, and raises \<^verbatim>\<open>IndexError\<close> out of range and \<^verbatim>\<open>TypeError\<close> for a key
  that is no integer, and so does an instance of a subclass of \<^verbatim>\<open>list\<close>; an object without
  item assignment raises \<^verbatim>\<open>TypeError\<close>.
\<close>

fun list_setitem :: "val list \<Rightarrow> key \<Rightarrow> val \<Rightarrow> error + val list" where
  "list_setitem xs (KInt i) v =
     (if 0 \<le> i \<and> i < int (length xs) then Inr (xs[nat i := v])
      else if i < 0 \<and> - int (length xs) \<le> i then Inr (xs[nat (int (length xs) + i) := v])
      else Inl IndexError)"
| "list_setitem xs k v = Inl TypeError"

fun py_setitem :: "val \<Rightarrow> key \<Rightarrow> val \<Rightarrow> error + val" where
  "py_setitem (VMapping DictT d) k v = Inr (VDict (dict_setitem d k v))"
| "py_setitem (VMapping DotDictT d) k v =
     (case DotDict_setitem d k v of Inl e \<Rightarrow> Inl e | Inr d' \<Rightarrow> Inr (VDotDict d'))"
| "py_setitem (VList xs) k v =
     (case list_setitem xs k v of Inl e \<Rightarrow> Inl e | Inr xs' \<Rightarrow> Inr (VList xs'))"
| "py_setitem (VSubclass ListT name xs) k v =
     (case list_setitem xs k v of
        Inl e \<Rightarrow> Inl e
      | Inr xs' \<Rightarrow> Inr (VSubclass ListT name xs'))"
| "py_setitem obj k v = Inl TypeError"

text \<open>
  The inner loop and the assignment after it:
  \<^verbatim>\<open>for ki in k[:-1]: current_dict = current_dict.setdefault(ki, (dct_class or dict)())\<close>
  and then \<^verbatim>\<open>current_dict[k[-1]] = v\<close>. In Python \<^verbatim>\<open>current_dict\<close> refers to an object inside
  \<^verbatim>\<open>result\<close>, and the assignment changes that object in place. Values are trees here, so
  \<open>set_path\<close> returns the changed object, and each level stores the changed child under
  its key again (\<open>put_back\<close>, which raises nothing: the key is present).
\<close>

fun put_back :: "val \<Rightarrow> key \<Rightarrow> val \<Rightarrow> val" where
  "put_back (VMapping c d) k child = VMapping c (dict_setitem d k child)"
| "put_back obj k child = obj"

fun set_path :: "mapping_class option \<Rightarrow> val \<Rightarrow> key list \<Rightarrow> key \<Rightarrow> val \<Rightarrow> error + val" where
  "set_path dct_class current_dict [] k_last v = py_setitem current_dict k_last v"
| "set_path dct_class current_dict (ki # kis) k_last v =
     (case py_setdefault current_dict ki (new_mapping dct_class) of
        Inl e \<Rightarrow> Inl e
      | Inr (child, current_dict') \<Rightarrow>
         (case set_path dct_class child kis k_last v of
            Inl e \<Rightarrow> Inl e
          | Inr child' \<Rightarrow> Inr (put_back current_dict' ki child')))"

text \<open>
  \<^verbatim>\<open>flatdict_to_dict(dct, dct_class=None)\<close>. For a \<open>CompoundKey\<close> the walk above; on the
  empty \<open>CompoundKey\<close> the inner loop does nothing and \<^verbatim>\<open>k[-1]\<close> raises \<^verbatim>\<open>IndexError\<close>. Any
  other key is set on \<^verbatim>\<open>result\<close> itself.
\<close>

fun flatdict_to_dict_loop :: "mapping_class option \<Rightarrow> flatdict \<Rightarrow> val \<Rightarrow> error + val" where
  "flatdict_to_dict_loop dct_class [] result = Inr result"
| "flatdict_to_dict_loop dct_class ((k, v) # dct) result =
     (case (case k of
              CompoundKey ks \<Rightarrow>
                if ks = [] then Inl IndexError
                else set_path dct_class result (butlast ks) (last ks) v
            | Plain k' \<Rightarrow> py_setitem result k' v) of
        Inl e \<Rightarrow> Inl e
      | Inr result' \<Rightarrow> flatdict_to_dict_loop dct_class dct result')"

definition flatdict_to_dict :: "flatdict \<Rightarrow> mapping_class option \<Rightarrow> error + val" where
  "flatdict_to_dict dct dct_class = flatdict_to_dict_loop dct_class dct (new_mapping dct_class)"

subsection \<open>The notions of the statements\<close>

text \<open>
  A Python dictionary has distinct keys, and so has every dictionary nested in it.
\<close>

fun wf_dict :: "items \<Rightarrow> bool" where
  "wf_dict [] = True"
| "wf_dict ((k, VMapping DictT d) # m) = (k \<notin> set (keys m) \<and> wf_dict d \<and> wf_dict m)"
| "wf_dict ((k, v) # m) = (k \<notin> set (keys m) \<and> wf_dict m)"

text \<open>
  The leaves of a nested dictionary as the spec describes them, each with the chain of
  keys from the root: \<open>leaves\<close> takes every value that is not a \<^verbatim>\<open>dict\<close> for a leaf;
  \<open>mapping_leaves\<close> takes the spec at its word and descends into every mapping, a
  \<^verbatim>\<open>DotDict\<close> too.
\<close>

fun leaves :: "items \<Rightarrow> (key list \<times> val) list" where
  "leaves [] = []"
| "leaves ((k, VMapping DictT d) # m) = map (\<lambda>(p, x). (k # p, x)) (leaves d) @ leaves m"
| "leaves ((k, v) # m) = ([k], v) # leaves m"

fun mapping_leaves :: "items \<Rightarrow> (key list \<times> val) list" where
  "mapping_leaves [] = []"
| "mapping_leaves ((k, VMapping c d) # m) =
     map (\<lambda>(p, x). (k # p, x)) (mapping_leaves d) @ mapping_leaves m"
| "mapping_leaves ((k, v) # m) = ([k], v) # mapping_leaves m"

text \<open>No dictionary nested in the dictionary is empty.\<close>

fun no_empty_dict :: "items \<Rightarrow> bool" where
  "no_empty_dict [] = True"
| "no_empty_dict ((k, VMapping DictT d) # m) = (d \<noteq> [] \<and> no_empty_dict d \<and> no_empty_dict m)"
| "no_empty_dict ((k, v) # m) = no_empty_dict m"

text \<open>The dictionary without the nested dictionaries that hold no leaf.\<close>

fun prune :: "items \<Rightarrow> items" where
  "prune [] = []"
| "prune ((k, VMapping DictT d) # m) =
     (if leaves d = [] then prune m else (k, VDict (prune d)) # prune m)"
| "prune ((k, v) # m) = (k, v) # prune m"

text \<open>
  The path an entry of a flat dictionary is stored at, and the flat dictionaries in
  which no \<open>CompoundKey\<close> is empty and no entry's path has the path of an earlier entry
  as a proper prefix (\<open>seen\<close> are the paths of the earlier entries).
\<close>

fun path_of :: "fkey \<Rightarrow> key list" where
  "path_of (Plain k) = [k]"
| "path_of (CompoundKey ks) = ks"

fun no_conflict :: "key list list \<Rightarrow> flatdict \<Rightarrow> bool" where
  "no_conflict seen [] = True"
| "no_conflict seen ((k, v) # dct) =
     (path_of k \<noteq> [] \<and> (\<forall>q \<in> set seen. \<not> strict_prefix q (path_of k))
      \<and> no_conflict (path_of k # seen) dct)"

subsection \<open>The notions of the proofs\<close>

text \<open>
  The invariant of \<^verbatim>\<open>result\<close> in \<^verbatim>\<open>flatdict_to_dict\<close>, for the set \<open>P\<close> of the paths stored
  so far: \<^verbatim>\<open>result\<close> is a \<^verbatim>\<open>dict\<close>, and what it holds under a key is a stored value (the
  path is in \<open>P\<close>) or again such a \<^verbatim>\<open>dict\<close>, made by the walk.
\<close>

fun internal :: "key list set \<Rightarrow> val \<Rightarrow> bool"
  and internal_items :: "key list set \<Rightarrow> items \<Rightarrow> bool" where
  "internal P (VMapping DictT d) = internal_items P d"
| "internal P v = False"
| "internal_items P [] = True"
| "internal_items P ((k, x) # d) =
     (([k] \<in> P \<or> internal {q. k # q \<in> P} x) \<and> internal_items P d)"

text \<open>Leaves as the entries of a flat dictionary, below a parent path and below a key.\<close>

definition at_path :: "key list \<Rightarrow> (key list \<times> val) list \<Rightarrow> flatdict" where
  "at_path parent ls = map (\<lambda>(p, x). (CompoundKey (parent @ p), x)) ls"

definition under :: "key \<Rightarrow> (key list \<times> val) list \<Rightarrow> (key list \<times> val) list" where
  "under k es = map (\<lambda>(p, x). (k # p, x)) es"

section \<open>merge\_dicts\<close>







subsection \<open>The notions of the statements\<close>






subsection \<open>The notions of the proofs\<close>


section \<open>merge\_dicts on a store\<close>

text \<open>
  Whether \<^verbatim>\<open>merge_dicts\<close> changes its arguments depends on which objects it writes to, so
  here the mappings are objects in a store: an address is an index of the store, and the
  value under a key is a reference to a mapping of the store or something else, which
  \<^verbatim>\<open>merge_dicts\<close> never looks into (\<open>Leaf\<close>). New objects are appended to the store.
\<close>

datatype 'a ref_val = Ref nat | Leaf 'a

type_synonym 'a obj = "mapping_class \<times> (key \<times> 'a ref_val) list"







subsection \<open>The notions of the statements\<close>



subsection \<open>The notions of the proofs\<close>



section \<open>Properties of DotDict\<close>

subsection \<open>The reserved names\<close>

lemma not_reserved_copy: "\<not> hasattr_MutableMapping ''copy''"
  by (simp add: hasattr_MutableMapping_def MutableMapping_attrs_def ABCMeta_attrs_def)

lemma not_reserved_weakref: "\<not> hasattr_MutableMapping ''__weakref__''"
  by (simp add: hasattr_MutableMapping_def MutableMapping_attrs_def ABCMeta_attrs_def)

lemma reserved_examples:
  "hasattr_MutableMapping ''keys''" "hasattr_MutableMapping ''items''"
  "hasattr_MutableMapping ''get''" "hasattr_MutableMapping ''update''"
  by (simp_all add: hasattr_MutableMapping_def MutableMapping_attrs_def ABCMeta_attrs_def)

lemma setitem_Inr_iff:
  "DotDict_setitem self k v = Inr self' \<longleftrightarrow> storable k \<and> self' = dict_setitem self k v"
  by (cases k) auto

lemma setitem_ValueError_iff:
  "DotDict_setitem self k v = Inl ValueError \<longleftrightarrow> (\<exists>s. k = KStr s \<and> hasattr_MutableMapping s)"
  by (cases k) auto

lemma setitem_TypeError_iff:
  "DotDict_setitem self k v = Inl TypeError \<longleftrightarrow> \<not> is_str k"
  by (cases k) auto

lemma getitem_setitem: "DotDict_getitem (dict_setitem self k v) k = Inr v"
  by (simp add: DotDict_getitem_def dict_setitem_def update_conv')

text \<open>
  Claim C4. Setting a key whose name is an attribute of \<^verbatim>\<open>MutableMapping\<close>, such as
  \<^verbatim>\<open>keys\<close>, \<^verbatim>\<open>items\<close>, \<^verbatim>\<open>get\<close> or \<^verbatim>\<open>update\<close>, fails, by item assignment and by attribute
  assignment alike, whatever the instance and the value. The error is the one the spec
  calls \<^verbatim>\<open>ReservedKeyError\<close>; the code raises it as the built-in \<^verbatim>\<open>ValueError\<close>.
\<close>

theorem setitem_reserved_raises:
  "hasattr_MutableMapping s \<or> s \<in> set [''keys'', ''items'', ''get'', ''update'']
   \<Longrightarrow> DotDict_setitem self (KStr s) v = Inl ValueError
       \<and> DotDict_setattr self s v = Inl ValueError"
  using reserved_examples by (auto simp: DotDict_setattr_def)

theorem setitem_reserved_raises_witness:
  "DotDict_setitem [] (KStr ''items'') (VInt 1) = Inl ValueError"
  using setitem_reserved_raises [of "''items''" "[]" "VInt 1"] by simp

text \<open>
  Claim C9. \<^verbatim>\<open>__setitem__\<close> raises its \<^verbatim>\<open>ValueError\<close> for exactly the keys that are attribute
  names of \<^verbatim>\<open>MutableMapping\<close>. The name \<^verbatim>\<open>copy\<close>, which \<^verbatim>\<open>DotDict\<close> defines and
  \<^verbatim>\<open>MutableMapping\<close> does not, is accepted on every instance and for every value; the
  entry is then read back by key, and the attribute \<^verbatim>\<open>copy\<close> of the instance is the stored
  value and no longer the method.
\<close>

theorem setitem_rejects_exactly_MutableMapping_attrs:
  "(DotDict_setitem self k v = Inl ValueError
      \<longleftrightarrow> (\<exists>s. k = KStr s \<and> hasattr_MutableMapping s))
   \<and> ''copy'' \<in> set DotDict_class_attrs
   \<and> \<not> hasattr_MutableMapping ''copy''
   \<and> (\<exists>self'. DotDict_setitem self (KStr ''copy'') v = Inr self'
          \<and> DotDict_getitem self' (KStr ''copy'') = Inr v
          \<and> DotDict_getattr self' ''copy'' = Inr (Field v))"
  using not_reserved_copy
  by (simp add: setitem_ValueError_iff getitem_setitem DotDict_class_attrs_def
      DotDict_getattr_def DotDict_data_descriptors_def dict_setitem_def update_conv'
      DotDict_getitem_def)

theorem setitem_rejects_exactly_MutableMapping_attrs_witness:
  "DotDict_setitem [(KStr ''a'', VInt 1)] (KStr ''copy'') (VInt 2)
     = Inr [(KStr ''a'', VInt 1), (KStr ''copy'', VInt 2)]
   \<and> DotDict_getattr [(KStr ''a'', VInt 1), (KStr ''copy'', VInt 2)] ''copy''
     = Inr (Field (VInt 2))
   \<and> DotDict_setitem [] (KStr ''update'') VNone = Inl ValueError"
  using setitem_rejects_exactly_MutableMapping_attrs
      [of "[(KStr ''a'', VInt 1)]" "KStr ''copy''" "VInt 2"]
    setitem_rejects_exactly_MutableMapping_attrs [of "[]" "KStr ''update''" VNone]
    reserved_examples(4)
  by (auto simp: dict_setitem_def)

subsection \<open>Every stored key is a string that is not reserved\<close>

lemma keys_dict_setitem: "set (keys (dict_setitem d k v)) = insert k (set (keys d))"
  using dom_update [of k v d] by (simp add: keys_def dict_setitem_def)

lemma setitem_storable:
  "DotDict_setitem self k v = Inr self' \<Longrightarrow> list_all storable (keys self)
   \<Longrightarrow> list_all storable (keys self')"
  by (auto simp: setitem_Inr_iff list_all_iff keys_dict_setitem)

lemma update_storable:
  "DotDict_update self other = Inr self' \<Longrightarrow> list_all storable (keys self)
   \<Longrightarrow> list_all storable (keys self')"
proof (induction other arbitrary: self)
  case Nil
  then show ?case by simp
next
  case (Cons kv other)
  obtain k v where kv: "kv = (k, v)" by (cases kv)
  from Cons.prems(1) obtain s where s: "DotDict_setitem self k v = Inr s"
    and u: "DotDict_update s other = Inr self'"
    by (auto simp: kv split: sum.splits)
  from setitem_storable [OF s Cons.prems(2)] show ?case by (rule Cons.IH [OF u])
qed

lemma init_storable:
  "DotDict_init init_dict kwargs = Inr self \<Longrightarrow> list_all storable (keys self)"
  by (auto simp: DotDict_init_def keys_def split: sum.splits option.splits if_splits
      dest!: update_storable)

lemma delitem_storable:
  "DotDict_delitem self k = Inr self' \<Longrightarrow> list_all storable (keys self)
   \<Longrightarrow> list_all storable (keys self')"
  by (auto simp: DotDict_delitem_def list_all_iff keys_def AList.delete_eq split: if_splits)

lemma setdefault_storable:
  "DotDict_setdefault self k v = Inr (r, self') \<Longrightarrow> list_all storable (keys self)
   \<Longrightarrow> list_all storable (keys self')"
  by (auto simp: DotDict_setdefault_def split: sum.splits dest: setitem_storable)

lemma reachable_storable: "reachable self \<Longrightarrow> list_all storable (keys self)"
proof (induction rule: reachable.induct)
  case (init init_dict kwargs self)
  then show ?case by (rule init_storable)
next
  case (setitem self k v self')
  then show ?case by (blast intro: setitem_storable)
next
  case (setattr self a v self')
  then show ?case unfolding DotDict_setattr_def by (blast intro: setitem_storable)
next
  case (delitem self k self')
  then show ?case by (blast intro: delitem_storable)
next
  case (update self other self')
  then show ?case by (blast intro: update_storable)
next
  case (setdefault self k v r self')
  then show ?case by (blast intro: setdefault_storable)
next
  case (copy self self')
  then show ?case unfolding DotDict_copy_def by (blast intro: init_storable)
qed

lemma reachable_empty: "reachable []"
proof -
  have "DotDict_init None [] = Inr []"
    by (simp add: DotDict_init_def)
  then show ?thesis by (rule reachable.init)
qed

lemma reachable_example: "reachable [(KStr ''a'', VInt 1)]"
proof -
  have "DotDict_init None [(''a'', VInt 1)] = Inr [(KStr ''a'', VInt 1)]"
    by (simp add: DotDict_init_def dict_setitem_def hasattr_MutableMapping_def
        MutableMapping_attrs_def ABCMeta_attrs_def)
  then show ?thesis by (rule reachable.init)
qed

text \<open>
  Claim C10. A write with a key that is not a string raises an error (the \<^verbatim>\<open>TypeError\<close> of
  \<^verbatim>\<open>hasattr\<close>), in \<^verbatim>\<open>__setitem__\<close> and so in \<^verbatim>\<open>update\<close> and in the constructor, which write
  through it; and every key of a reachable \<^verbatim>\<open>DotDict\<close> is a string.
\<close>

theorem DotDict_keys_are_strings:
  "(\<not> is_str k \<longrightarrow> DotDict_setitem self k v = Inl TypeError
        \<and> DotDict_update self ((k, v) # other) = Inl TypeError
        \<and> DotDict_init (Some ((k, v) # other)) kwargs = Inl TypeError)
   \<and> (reachable self \<longrightarrow> (\<forall>k' \<in> set (keys self). is_str k'))"
proof -
  have "is_str k'" if "reachable self" "k' \<in> set (keys self)" for k'
    using reachable_storable [OF that(1)] that(2)
    by (cases k') (auto simp: list_all_iff)
  moreover have "DotDict_setitem self k v = Inl TypeError" if "\<not> is_str k" for self
    using that by (simp add: setitem_TypeError_iff)
  ultimately show ?thesis by (simp add: DotDict_init_def)
qed

theorem DotDict_keys_are_strings_witness:
  "DotDict_setitem [] (KInt 1) (VInt 2) = Inl TypeError
   \<and> reachable [(KStr ''a'', VInt 1)]
   \<and> list_all is_str (keys [(KStr ''a'', VInt 1)])"
  using DotDict_keys_are_strings [of "KInt 1" "[]" "VInt 2" "[]" "[]"]
    DotDict_keys_are_strings [of "KInt 1" "[(KStr ''a'', VInt 1)]" "VInt 2" "[]" "[]"]
    reachable_example
  by (simp add: list_all_iff)

subsection \<open>Attribute access and key access\<close>

lemma reachable_weakref: "reachable [(KStr ''__weakref__'', VInt 1)]"
proof -
  have "DotDict_setitem [] (KStr ''__weakref__'') (VInt 1)
      = Inr [(KStr ''__weakref__'', VInt 1)]"
    using not_reserved_weakref by (simp add: dict_setitem_def)
  with reachable_empty show ?thesis by (rule reachable.setitem)
qed

text \<open>
  Claim C5, as stated, fails: \<^verbatim>\<open>__weakref__\<close> is no attribute of \<^verbatim>\<open>MutableMapping\<close> (whose
  classes all have empty \<^verbatim>\<open>__slots__\<close>), so \<^verbatim>\<open>m["__weakref__"] = 1\<close> is accepted on an empty
  \<^verbatim>\<open>DotDict\<close>; but \<^verbatim>\<open>__weakref__\<close> is a data descriptor of the class \<^verbatim>\<open>DotDict\<close>, so reading
  the field \<^verbatim>\<open>m.__weakref__\<close> does not give the stored entry, while \<^verbatim>\<open>m["__weakref__"]\<close> does.
\<close>

theorem attribute_read_weakref_counterexample:
  "\<not> (\<forall>self k v. reachable self \<longrightarrow> DotDict_getitem self (KStr k) = Inr v
        \<longrightarrow> DotDict_getattr self k = Inr (Field v))"
proof
  assume "\<forall>self k v. reachable self \<longrightarrow> DotDict_getitem self (KStr k) = Inr v
        \<longrightarrow> DotDict_getattr self k = Inr (Field v)"
  then have "DotDict_getitem [(KStr ''__weakref__'', VInt 1)] (KStr ''__weakref__'') = Inr (VInt 1)
    \<longrightarrow> DotDict_getattr [(KStr ''__weakref__'', VInt 1)] ''__weakref__'' = Inr (Field (VInt 1))"
    using reachable_weakref by blast
  then show False
    by (simp add: DotDict_getitem_def DotDict_getattr_def DotDict_data_descriptors_def)
qed

lemma storable_not_descriptor:
  "storable (KStr s) \<Longrightarrow> s \<noteq> ''__weakref__'' \<Longrightarrow> s \<notin> set DotDict_data_descriptors"
  by (auto simp: DotDict_data_descriptors_def hasattr_MutableMapping_def
      MutableMapping_attrs_def ABCMeta_attrs_def)

lemma getattr_field:
  "s \<notin> set DotDict_data_descriptors \<Longrightarrow> DotDict_getitem self (KStr s) = Inr v
   \<Longrightarrow> DotDict_getattr self s = Inr (Field v)"
  by (auto simp: DotDict_getattr_def DotDict_getitem_def split: option.splits)

text \<open>
  Claim C5, amended. On every reachable \<^verbatim>\<open>DotDict\<close> and for every key \<open>k\<close> other than
  \<^verbatim>\<open>__weakref__\<close>: if the entry \<open>k\<close> is present, reading the field \<open>k\<close> gives the value of
  the entry; attribute assignment is item assignment; and after either has succeeded the
  instance is again reachable, and both the entry \<open>k\<close> and the field \<open>k\<close> read the value
  written. As the reachable instances are closed under every operation, the agreement
  holds after each of them.
\<close>

theorem attribute_access_agrees:
  assumes "reachable self" and "k \<noteq> ''__weakref__''"
  shows "(DotDict_getitem self (KStr k) = Inr v \<longrightarrow> DotDict_getattr self k = Inr (Field v))
    \<and> DotDict_setattr self k v = DotDict_setitem self (KStr k) v
    \<and> (\<forall>self'. DotDict_setitem self (KStr k) v = Inr self' \<or> DotDict_setattr self k v = Inr self'
          \<longrightarrow> reachable self' \<and> DotDict_getitem self' (KStr k) = Inr v
              \<and> DotDict_getattr self' k = Inr (Field v))"
proof (intro conjI allI impI)
  assume g: "DotDict_getitem self (KStr k) = Inr v"
  then have "KStr k \<in> set (keys self)"
    by (auto simp: DotDict_getitem_def keys_def split: option.splits dest: map_of_SomeD
        intro: rev_image_eqI)
  with reachable_storable [OF assms(1)] have "storable (KStr k)"
    unfolding list_all_iff by blast
  from storable_not_descriptor [OF this assms(2)] g
  show "DotDict_getattr self k = Inr (Field v)" by (rule getattr_field)
next
  show "DotDict_setattr self k v = DotDict_setitem self (KStr k) v"
    by (simp add: DotDict_setattr_def)
next
  fix self'
  assume "DotDict_setitem self (KStr k) v = Inr self' \<or> DotDict_setattr self k v = Inr self'"
  then have s: "DotDict_setitem self (KStr k) v = Inr self'"
    by (simp add: DotDict_setattr_def)
  from assms(1) s show "reachable self'" by (rule reachable.setitem)
  from s have "storable (KStr k) \<and> self' = dict_setitem self (KStr k) v"
    by (rule iffD1 [OF setitem_Inr_iff])
  then have st: "storable (KStr k)" and eq: "self' = dict_setitem self (KStr k) v"
    by blast+
  show g: "DotDict_getitem self' (KStr k) = Inr v"
    by (simp add: eq getitem_setitem)
  from storable_not_descriptor [OF st assms(2)] g
  show "DotDict_getattr self' k = Inr (Field v)" by (rule getattr_field)
qed

theorem attribute_access_agrees_witness:
  "reachable [] \<and> DotDict_setattr [] ''foo'' (VInt 5) = Inr [(KStr ''foo'', VInt 5)]
   \<and> DotDict_getitem [(KStr ''foo'', VInt 5)] (KStr ''foo'') = Inr (VInt 5)
   \<and> DotDict_getattr [(KStr ''foo'', VInt 5)] ''foo'' = Inr (Field (VInt 5))"
proof -
  have n: "''foo'' \<noteq> ''__weakref__''" by simp
  have s: "DotDict_setattr [] ''foo'' (VInt 5) = Inr [(KStr ''foo'', VInt 5)]"
    by (simp add: DotDict_setattr_def dict_setitem_def hasattr_MutableMapping_def
        MutableMapping_attrs_def ABCMeta_attrs_def)
  from attribute_access_agrees [OF reachable_empty n, of "VInt 5"] s reachable_empty
  show ?thesis by simp
qed

section \<open>Properties of to\_dotdict\<close>


lemma update_fresh: "k \<notin> set (keys d) \<Longrightarrow> dict_setitem d k v = d @ [(k, v)]"
  by (induction d) (auto simp: dict_setitem_def keys_def)







section \<open>Properties of dict\_to\_flatdict\<close>

lemma flatdict_setitem_fresh:
  "key_of k \<notin> key_of ` fst ` set d \<Longrightarrow> flatdict_setitem d k v = d @ [(k, v)]"
  by (induction d) auto

lemma fold_setitem_distinct:
  "distinct (map key_of (map fst (acc @ its)))
   \<Longrightarrow> fold (\<lambda>(k, v) d. flatdict_setitem d k v) its acc = acc @ its"
proof (induction its arbitrary: acc)
  case Nil
  then show ?case by simp
next
  case (Cons kv its)
  obtain k v where kv: "kv = (k, v)" by (cases kv)
  from Cons.prems have "key_of k \<notin> key_of ` fst ` set acc"
    by (auto simp: kv)
  then have s: "flatdict_setitem acc k v = acc @ [(k, v)]"
    by (rule flatdict_setitem_fresh)
  from Cons.prems have "distinct (map key_of (map fst ((acc @ [(k, v)]) @ its)))"
    by (simp add: kv)
  then have "fold (\<lambda>(k, v) d. flatdict_setitem d k v) its (acc @ [(k, v)])
      = (acc @ [(k, v)]) @ its"
    by (rule Cons.IH)
  then show ?case by (simp add: kv s)
qed

lemma dict_of_items_distinct:
  "distinct (map key_of (map fst its)) \<Longrightarrow> dict_of_items its = its"
  using fold_setitem_distinct [of "[]" its] by (simp add: dict_of_items_def)

lemma leaves_heads: "(p, x) \<in> set (leaves d) \<Longrightarrow> p \<noteq> [] \<and> hd p \<in> set (keys d)"
  by (induction d rule: leaves.induct) (auto simp: keys_def)

lemma leaves_distinct: "wf_dict d \<Longrightarrow> distinct (map fst (leaves d))"
proof (induction d rule: leaves.induct)
  case 1
  then show ?case by simp
next
  case (2 k d m)
  have "map fst (map (\<lambda>(p, x). (k # p, x)) (leaves d)) = map ((#) k) (map fst (leaves d))"
    by (simp add: case_prod_unfold comp_def)
  moreover have "distinct (map fst (leaves d))" using 2 by simp
  ultimately have "distinct (map fst (map (\<lambda>(p, x). (k # p, x)) (leaves d)))"
    by (simp add: distinct_map inj_on_def)
  moreover have "distinct (map fst (leaves m))" using 2 by simp
  moreover have "p \<noteq> k # q" if "(p, x) \<in> set (leaves m)" for p q x
    using leaves_heads [OF that] "2.prems" by auto
  ultimately show ?case by (fastforce simp: case_prod_unfold)
qed (use leaves_heads in \<open>fastforce+\<close>)

lemma at_path_distinct:
  assumes "distinct (map fst ls)"
  shows "distinct (map key_of (map fst (at_path parent ls)))"
proof -
  have "map key_of (map fst (at_path parent ls)) = map (\<lambda>p. KTuple (parent @ p)) (map fst ls)"
    by (simp add: at_path_def case_prod_unfold comp_def)
  with assms show ?thesis by (simp add: distinct_map inj_on_def)
qed

lemma at_path_Cons:
  "at_path (parent @ [k]) ls = at_path parent (map (\<lambda>(p, x). (k # p, x)) ls)"
  by (simp add: at_path_def case_prod_unfold comp_def)

lemma flatten_leaves:
  "wf_dict dct \<longrightarrow> dict_to_flatdict dct parent
     = at_path (case parent of None \<Rightarrow> [] | Some p \<Rightarrow> p) (leaves dct)"
  "wf_dict dct \<longrightarrow> dict_to_flatdict_loop dct par its = its @ at_path par (leaves dct)"
proof (induction dct parent and dct par its rule: dict_to_flatdict_dict_to_flatdict_loop.induct)
  case (1 dct parent)
  have n: "(case parent of None \<Rightarrow> [] | Some p \<Rightarrow> if p = [] then [] else p)
      = (case parent of None \<Rightarrow> [] | Some p \<Rightarrow> p)"
    by (simp split: option.splits)
  show ?case
  proof
    assume wf: "wf_dict dct"
    with 1 have "dict_to_flatdict_loop dct
        (case parent of None \<Rightarrow> [] | Some p \<Rightarrow> if p = [] then [] else p) []
      = at_path (case parent of None \<Rightarrow> [] | Some p \<Rightarrow> p) (leaves dct)"
      by (simp add: n)
    moreover have "distinct (map key_of (map fst
        (at_path (case parent of None \<Rightarrow> [] | Some p \<Rightarrow> p) (leaves dct))))"
      using wf by (intro at_path_distinct leaves_distinct)
    ultimately show "dict_to_flatdict dct parent
        = at_path (case parent of None \<Rightarrow> [] | Some p \<Rightarrow> p) (leaves dct)"
      by (simp add: dict_of_items_distinct)
  qed
next
  case (3 k v dct parent its)
  show ?case
  proof
    assume wf: "wf_dict ((k, VDict v) # dct)"
    then have wfs: "wf_dict v" "wf_dict dct" by simp_all
    from 3(1) wfs
    have a: "dict_to_flatdict v (Some (parent @ [k])) = at_path (parent @ [k]) (leaves v)"
      by simp
    from 3(2) wfs
    have b: "dict_to_flatdict_loop dct parent (its @ dict_to_flatdict v (Some (parent @ [k])))
        = (its @ dict_to_flatdict v (Some (parent @ [k]))) @ at_path parent (leaves dct)"
      by blast
    have "dict_to_flatdict_loop ((k, VDict v) # dct) parent its
        = dict_to_flatdict_loop dct parent (its @ dict_to_flatdict v (Some (parent @ [k])))"
      by (simp del: dict_to_flatdict.simps)
    also note b
    finally show "dict_to_flatdict_loop ((k, VDict v) # dct) parent its
        = its @ at_path parent (leaves ((k, VDict v) # dct))"
      by (simp add: a at_path_Cons del: dict_to_flatdict.simps) (simp add: at_path_def)
  qed
qed (simp_all add: at_path_def)

text \<open>
  Claim C7, as stated, fails where the spec's ``mapping'' is more than \<^verbatim>\<open>dict\<close>: the test
  of the code is \<^verbatim>\<open>isinstance(v, dict)\<close>, and a \<^verbatim>\<open>DotDict\<close> (a mapping, and no \<^verbatim>\<open>dict\<close>) is
  kept as the value of one entry instead of being descended into.
\<close>

theorem flatten_keeps_DotDict_counterexample:
  "dict_to_flatdict [(KStr ''a'', VDotDict [(KStr ''b'', VInt 1)])] None
     = [(CompoundKey [KStr ''a''], VDotDict [(KStr ''b'', VInt 1)])]
   \<and> dict_to_flatdict [(KStr ''a'', VDotDict [(KStr ''b'', VInt 1)])] None
     \<noteq> map (\<lambda>(p, x). (CompoundKey p, x))
         (mapping_leaves [(KStr ''a'', VDotDict [(KStr ''b'', VInt 1)])])"
  by (simp add: dict_of_items_def)

text \<open>
  Claim C7, amended. For every nested dictionary, \<^verbatim>\<open>dict_to_flatdict\<close> returns the flat
  dictionary whose entries are exactly the leaves of the input, in the order of the
  traversal, each under the \<open>CompoundKey\<close> of the chain of keys from the root to the
  leaf (after the parent key, when one is given); a leaf is a value that is not a
  \<^verbatim>\<open>dict\<close>, so a value of another mapping class is a leaf, and a \<^verbatim>\<open>dict\<close> is descended
  into and contributes nothing when it is empty.
\<close>

theorem flatten_is_leaves:
  assumes "wf_dict m"
  shows "dict_to_flatdict m None = map (\<lambda>(p, x). (CompoundKey p, x)) (leaves m)
    \<and> dict_to_flatdict m (Some parent)
        = map (\<lambda>(p, x). (CompoundKey (parent @ p), x)) (leaves m)"
  using assms flatten_leaves(1) [of m None] flatten_leaves(1) [of m "Some parent"]
  by (simp add: at_path_def)

theorem flatten_is_leaves_witness:
  "wf_dict [(KStr ''a'', VDict [(KStr ''b'', VInt 1)]), (KStr ''e'', VInt 3)]
   \<and> dict_to_flatdict [(KStr ''a'', VDict [(KStr ''b'', VInt 1)]), (KStr ''e'', VInt 3)] None
       = [(CompoundKey [KStr ''a'', KStr ''b''], VInt 1), (CompoundKey [KStr ''e''], VInt 3)]
   \<and> wf_dict [(KStr ''a'', VDict [])]
   \<and> dict_to_flatdict [(KStr ''a'', VDict [])] None = []"
proof -
  have w1: "wf_dict [(KStr ''a'', VDict [(KStr ''b'', VInt 1)]), (KStr ''e'', VInt 3)]"
    and w2: "wf_dict [(KStr ''a'', VDict [])]"
    by (simp_all add: keys_def)
  from flatten_is_leaves [OF w1] flatten_is_leaves [OF w2] w1 w2 show ?thesis
    by simp
qed

section \<open>Properties of flatdict\_to\_dict\<close>

subsection \<open>After dict\_to\_flatdict\<close>

lemma loop_append:
  "flatdict_to_dict_loop c (xs @ ys) r =
     (case flatdict_to_dict_loop c xs r of
        Inl e \<Rightarrow> Inl e
      | Inr r' \<Rightarrow> flatdict_to_dict_loop c ys r')"
  by (induction xs arbitrary: r) (auto split: sum.splits)

lemma loop_step:
  "p \<noteq> [] \<Longrightarrow> flatdict_to_dict_loop c ((CompoundKey p, x) # rest) r =
     (case set_path c r (butlast p) (last p) x of
        Inl e \<Rightarrow> Inl e
      | Inr r' \<Rightarrow> flatdict_to_dict_loop c rest r')"
  by simp

lemma at_path_under_Cons:
  "at_path [] (under k ((p, x) # es)) = (CompoundKey (k # p), x) # at_path [] (under k es)"
  "at_path [] ((p, x) # es) = (CompoundKey p, x) # at_path [] es"
  by (simp_all add: at_path_def under_def)

lemma set_path_present:
  assumes "map_of R k = Some c"
  shows "set_path None (VDict R) (k # ks) l v =
     (case set_path None c ks l v of
        Inl e \<Rightarrow> Inl e
      | Inr c' \<Rightarrow> Inr (VDict (dict_setitem R k c')))"
  using assms by (simp add: dict_get_def split: sum.splits)

lemma set_path_absent:
  assumes "map_of R k = None"
  shows "set_path None (VDict R) (k # ks) l v =
     (case set_path None (VDict []) ks l v of
        Inl e \<Rightarrow> Inl e
      | Inr c' \<Rightarrow> Inr (VDict (dict_setitem R k c')))"
  using assms
  by (simp add: dict_get_def new_mapping_def dict_setitem_def split: sum.splits)

lemma map_of_setitem: "map_of (dict_setitem R k c) k = Some c"
  by (simp add: dict_setitem_def update_conv')

lemma setitem_setitem: "dict_setitem (dict_setitem R k c) k c' = dict_setitem R k c'"
  by (simp add: dict_setitem_def)

lemma loop_under_present:
  assumes "map_of R k = Some c" and "\<forall>p \<in> fst ` set es. p \<noteq> []"
  shows "flatdict_to_dict_loop None (at_path [] (under k es)) (VDict R) =
     (case flatdict_to_dict_loop None (at_path [] es) c of
        Inl e \<Rightarrow> Inl e
      | Inr c' \<Rightarrow> Inr (VDict (dict_setitem R k c')))"
  using assms
proof (induction es arbitrary: R c)
  case Nil
  then show ?case
    by (simp add: at_path_def under_def dict_setitem_def update_triv)
next
  case (Cons e es)
  obtain p x where e: "e = (p, x)" by (cases e)
  from Cons.prems(2) have p: "p \<noteq> []" by (auto simp: e)
  then have bl: "butlast (k # p) = k # butlast p" "last (k # p) = last p" by simp_all
  show ?case
  proof (cases "set_path None c (butlast p) (last p) x")
    case (Inl err)
    then show ?thesis
      using p by (simp add: at_path_under_Cons e loop_step set_path_present [OF Cons.prems(1)]
          del: set_path.simps flatdict_to_dict_loop.simps)
  next
    case (Inr c1)
    have "flatdict_to_dict_loop None (at_path [] (under k es)) (VDict (dict_setitem R k c1)) =
      (case flatdict_to_dict_loop None (at_path [] es) c1 of
         Inl e \<Rightarrow> Inl e
       | Inr c' \<Rightarrow> Inr (VDict (dict_setitem R k c')))"
      using Cons.IH [OF map_of_setitem, of R c1] Cons.prems(2)
      unfolding setitem_setitem by simp
    then show ?thesis
      using p Inr
      by (simp add: at_path_under_Cons e loop_step set_path_present [OF Cons.prems(1)]
          setitem_setitem del: set_path.simps flatdict_to_dict_loop.simps)
  qed
qed

lemma loop_under_absent:
  assumes "map_of R k = None" and "\<forall>p \<in> fst ` set es. p \<noteq> []" and "es \<noteq> []"
  shows "flatdict_to_dict_loop None (at_path [] (under k es)) (VDict R) =
     (case flatdict_to_dict_loop None (at_path [] es) (VDict []) of
        Inl e \<Rightarrow> Inl e
      | Inr c' \<Rightarrow> Inr (VDict (dict_setitem R k c')))"
proof -
  from assms(3) obtain e es' where es: "es = e # es'" by (cases es) auto
  obtain p x where e: "e = (p, x)" by (cases e)
  from assms(2) have p: "p \<noteq> []" and rest: "\<forall>p \<in> fst ` set es'. p \<noteq> []"
    by (auto simp: es e)
  show ?thesis
  proof (cases "set_path None (VDict []) (butlast p) (last p) x")
    case (Inl err)
    then show ?thesis
      using p by (simp add: at_path_under_Cons es e loop_step set_path_absent [OF assms(1)]
          del: set_path.simps flatdict_to_dict_loop.simps)
  next
    case (Inr c1)
    have m: "map_of (dict_setitem R k c1) k = Some c1"
      by (rule map_of_setitem)
    have "flatdict_to_dict_loop None (at_path [] (under k es')) (VDict (dict_setitem R k c1)) =
      (case flatdict_to_dict_loop None (at_path [] es') c1 of
         Inl e \<Rightarrow> Inl e
       | Inr c' \<Rightarrow> Inr (VDict (dict_setitem R k c')))"
      using loop_under_present [OF m rest] unfolding setitem_setitem .
    then show ?thesis
      using p Inr
      by (simp add: at_path_under_Cons es e loop_step set_path_absent [OF assms(1)]
          setitem_setitem del: set_path.simps flatdict_to_dict_loop.simps)
  qed
qed

lemma map_of_None_keys: "k \<notin> set (keys R) \<Longrightarrow> map_of R k = None"
  by (simp add: keys_def map_of_eq_None_iff)

lemma unflatten_leaves:
  "wf_dict d \<Longrightarrow> set (keys R) \<inter> set (keys d) = {}
   \<Longrightarrow> flatdict_to_dict_loop None (at_path [] (leaves d)) (VDict R) = Inr (VDict (R @ prune d))"
proof (induction d arbitrary: R rule: leaves.induct)
  case 1
  then show ?case by (simp add: at_path_def)
next
  case (2 k d m)
  from "2.prems" have wf: "wf_dict d" "wf_dict m" and k: "k \<notin> set (keys R)" "k \<notin> set (keys m)"
    and disj: "set (keys R) \<inter> set (keys m) = {}"
    by (auto simp: keys_def)
  have split: "at_path [] (leaves ((k, VDict d) # m))
      = at_path [] (under k (leaves d)) @ at_path [] (leaves m)"
    by (simp add: at_path_def under_def)
  show ?case
  proof (cases "leaves d = []")
    case True
    with "2.IH"(2) [OF wf(2) disj] show ?thesis
      by (simp add: at_path_def)
  next
    case False
    have ne: "\<forall>p \<in> fst ` set (leaves d). p \<noteq> []"
      using leaves_heads by fastforce
    have inner: "flatdict_to_dict_loop None (at_path [] (leaves d)) (VDict [])
        = Inr (VDict ([] @ prune d))"
      using wf(1) by (intro "2.IH"(1)) (simp_all add: keys_def)
    have first: "flatdict_to_dict_loop None (at_path [] (under k (leaves d))) (VDict R)
        = Inr (VDict (R @ [(k, VDict (prune d))]))"
      using loop_under_absent [OF map_of_None_keys [OF k(1)] ne False] inner
      by (simp add: update_fresh [OF k(1)])
    have "set (keys (R @ [(k, VDict (prune d))])) \<inter> set (keys m) = {}"
      using disj k(2) by (auto simp: keys_def)
    from "2.IH"(2) [OF wf(2) this] first False show ?thesis
      by (simp add: split loop_append del: leaves.simps)
  qed
qed (auto simp: at_path_def keys_def update_fresh)

lemma unflatten_flatten_prune:
  assumes "wf_dict m"
  shows "flatdict_to_dict (dict_to_flatdict m None) None = Inr (VDict (prune m))"
proof -
  from assms have "dict_to_flatdict m None = at_path [] (leaves m)"
    using flatten_leaves(1) [of m None] by simp
  moreover have "flatdict_to_dict_loop None (at_path [] (leaves m)) (VDict [])
      = Inr (VDict ([] @ prune m))"
    using assms by (intro unflatten_leaves) (simp_all add: keys_def)
  ultimately show ?thesis
    by (simp add: flatdict_to_dict_def new_mapping_def)
qed

lemma no_empty_leaves: "no_empty_dict d \<Longrightarrow> d \<noteq> [] \<Longrightarrow> leaves d \<noteq> []"
  by (induction d rule: leaves.induct) auto

lemma no_empty_prune: "no_empty_dict d \<Longrightarrow> prune d = d"
  by (induction d rule: leaves.induct) (auto simp: no_empty_leaves)

text \<open>
  Claim C1. For every nested dictionary \<open>m\<close> that holds no empty nested dictionary,
  \<^verbatim>\<open>flatdict_to_dict(dict_to_flatdict(m))\<close> with the default mapping class returns, and
  returns a dictionary equal to \<open>m\<close> (with the entries in the order of \<open>m\<close>, at every
  level). Keys that are tuples need no exception: every key of \<open>m\<close>, of whatever type,
  is one element of a \<open>CompoundKey\<close>.
\<close>

theorem unflatten_flatten_roundtrip:
  assumes "wf_dict m" and "no_empty_dict m"
  shows "flatdict_to_dict (dict_to_flatdict m None) None = Inr (VDict m)"
  using unflatten_flatten_prune [OF assms(1)] no_empty_prune [OF assms(2)] by simp

theorem unflatten_flatten_roundtrip_witness:
  "wf_dict [(KStr ''a'', VDict [(KStr ''b'', VInt 1), (KStr ''c'', VDict [(KStr ''d'', VInt 2)])])]
   \<and> no_empty_dict
       [(KStr ''a'', VDict [(KStr ''b'', VInt 1), (KStr ''c'', VDict [(KStr ''d'', VInt 2)])])]
   \<and> flatdict_to_dict
       (dict_to_flatdict
         [(KStr ''a'', VDict [(KStr ''b'', VInt 1), (KStr ''c'', VDict [(KStr ''d'', VInt 2)])])]
         None) None
     = Inr (VDict
         [(KStr ''a'', VDict [(KStr ''b'', VInt 1), (KStr ''c'', VDict [(KStr ''d'', VInt 2)])])])"
proof -
  let ?m = "[(KStr ''a'', VDict [(KStr ''b'', VInt 1), (KStr ''c'', VDict [(KStr ''d'', VInt 2)])])]"
  have w: "wf_dict ?m" and n: "no_empty_dict ?m"
    by (simp_all add: keys_def)
  from unflatten_flatten_roundtrip [OF w n] w n show ?thesis by simp
qed

subsection \<open>On any flat dictionary\<close>

lemma internal_mono:
  "internal P v \<Longrightarrow> P \<subseteq> P' \<Longrightarrow> internal P' v"
  "internal_items P d \<Longrightarrow> P \<subseteq> P' \<Longrightarrow> internal_items P' d"
proof (induction P v and P d arbitrary: P' and P' rule: internal_internal_items.induct)
  case (4 P k x d)
  have "{q. k # q \<in> P} \<subseteq> {q. k # q \<in> P'}" using "4.prems"(2) by auto
  with 4 show ?case by auto
qed auto

lemma internal_setitem:
  assumes "[k] \<in> P' \<or> internal {q. k # q \<in> P'} x" and "P \<subseteq> P'"
  shows "internal_items P d \<Longrightarrow> internal_items P' (dict_setitem d k x)"
proof (induction d)
  case Nil
  with assms(1) show ?case by (simp add: dict_setitem_def)
next
  case (Cons e d)
  obtain k' x' where e: "e = (k', x')" by (cases e)
  from Cons.prems have "internal_items P [e]" by (simp add: e)
  from internal_mono(2) [OF this assms(2)]
  have "[k'] \<in> P' \<or> internal {q. k' # q \<in> P'} x'" by (simp add: e)
  moreover from Cons.prems have "internal_items P' d"
    using internal_mono(2) [OF _ assms(2)] by (simp add: e)
  ultimately show ?case
    using Cons assms(1) by (auto simp: e dict_setitem_def)
qed

lemma internal_dict:
  assumes "internal P v"
  shows "\<exists>d. v = VDict d"
proof (cases v)
  case (VMapping c d)
  with assms show ?thesis by (cases c) auto
qed (use assms in auto)

lemma internal_lookup:
  "internal_items P d \<Longrightarrow> map_of d k = Some c \<Longrightarrow> [k] \<in> P \<or> internal {q. k # q \<in> P} c"
  by (induction d) (auto split: if_splits)

lemma set_path_internal:
  "internal P cur \<Longrightarrow> \<forall>q \<in> P. \<not> strict_prefix q (ks @ [l])
   \<Longrightarrow> \<exists>r. set_path None cur ks l v = Inr r \<and> internal (insert (ks @ [l]) P) r"
proof (induction ks arbitrary: cur P)
  case Nil
  from internal_dict [OF Nil.prems(1)] obtain d where cur: "cur = VDict d" by blast
  have "internal_items (insert [l] P) (dict_setitem d l v)"
    using Nil.prems(1) by (intro internal_setitem [where P = P]) (auto simp: cur)
  then show ?case by (simp add: cur)
next
  case (Cons ki kis)
  from internal_dict [OF Cons.prems(1)] obtain d where cur: "cur = VDict d" by blast
  let ?P1 = "{q. ki # q \<in> P}"
  let ?p = "(ki # kis) @ [l]"
  have np: "\<forall>q \<in> ?P1. \<not> strict_prefix q (kis @ [l])"
    using Cons.prems(2) by auto
  have ki: "[ki] \<notin> P"
    using Cons.prems(2) by (auto simp: strict_prefix_def)
  have sub: "{q. ki # q \<in> insert ?p P} = insert (kis @ [l]) ?P1" by auto
  have wb: "internal (insert ?p P) (VDict (dict_setitem d ki c'))"
    if "internal (insert (kis @ [l]) ?P1) c'" for c'
  proof -
    from that have "internal {q. ki # q \<in> insert ?p P} c'" by (simp only: sub)
    then have "internal_items (insert ?p P) (dict_setitem d ki c')"
      using Cons.prems(1) by (intro internal_setitem [where P = P]) (auto simp: cur)
    then show ?thesis by simp
  qed
  show ?case
  proof (cases "map_of d ki")
    case None
    have "internal ?P1 (VDict [])" by simp
    from Cons.IH [OF this np] obtain c' where
      c': "set_path None (VDict []) kis l v = Inr c'" "internal (insert (kis @ [l]) ?P1) c'"
      by blast
    show ?thesis
      using wb [OF c'(2)] c'(1)
      by (simp add: cur set_path_absent [OF None] del: set_path.simps)
  next
    case (Some c)
    from internal_lookup [OF _ Some, of P] Cons.prems(1) ki have "internal ?P1 c"
      by (simp add: cur)
    from Cons.IH [OF this np] obtain c' where
      c': "set_path None c kis l v = Inr c'" "internal (insert (kis @ [l]) ?P1) c'"
      by blast
    show ?thesis
      using wb [OF c'(2)] c'(1)
      by (simp add: cur set_path_present [OF Some] del: set_path.simps)
  qed
qed

lemma loop_internal:
  "internal (set seen) r \<Longrightarrow> no_conflict seen dct
   \<Longrightarrow> \<exists>r'. flatdict_to_dict_loop None dct r = Inr r'"
proof (induction dct arbitrary: seen r)
  case Nil
  then show ?case by simp
next
  case (Cons e dct)
  obtain k v where e: "e = (k, v)" by (cases e)
  from Cons.prems(2) have p: "path_of k \<noteq> []"
    and np: "\<forall>q \<in> set seen. \<not> strict_prefix q (butlast (path_of k) @ [last (path_of k)])"
    and rest: "no_conflict (path_of k # seen) dct"
    by (simp_all add: e)
  from set_path_internal [OF Cons.prems(1) np] obtain r1 where
    r1: "set_path None r (butlast (path_of k)) (last (path_of k)) v = Inr r1"
      "internal (insert (butlast (path_of k) @ [last (path_of k)]) (set seen)) r1"
    by blast
  from r1(2) p have "internal (set (path_of k # seen)) r1" by simp
  from Cons.IH [OF this rest] obtain r' where "flatdict_to_dict_loop None dct r1 = Inr r'"
    by blast
  with r1(1) p show ?case
    by (cases k) (simp_all add: e)
qed

lemma unflatten_no_conflict:
  "no_conflict [] dct \<Longrightarrow> \<exists>r. flatdict_to_dict dct None = Inr r"
  using loop_internal [of "[]" "VDict []" dct]
  by (simp add: flatdict_to_dict_def new_mapping_def)

text \<open>
  Claim C3, as stated, fails: \<^verbatim>\<open>flatdict_to_dict\<close> raises on flat dictionaries. When the
  path of one \<open>CompoundKey\<close> is a proper prefix of a later one's and its value is no
  mapping, the walk reaches that value: the item assignment on it raises \<^verbatim>\<open>TypeError\<close>,
  or, one level earlier, \<^verbatim>\<open>setdefault\<close> raises \<^verbatim>\<open>AttributeError\<close>. And the empty
  \<open>CompoundKey\<close> raises \<^verbatim>\<open>IndexError\<close>.
\<close>

theorem unflatten_raises_counterexample:
  "flatdict_to_dict
     [(CompoundKey [KStr ''a''], VInt 1), (CompoundKey [KStr ''a'', KStr ''b''], VInt 2)] None
     = Inl TypeError
   \<and> flatdict_to_dict
     [(CompoundKey [KStr ''a''], VInt 1),
      (CompoundKey [KStr ''a'', KStr ''b'', KStr ''c''], VInt 2)] None
     = Inl AttributeError
   \<and> flatdict_to_dict [(CompoundKey [], VInt 1)] None = Inl IndexError"
  by (simp add: flatdict_to_dict_def new_mapping_def dict_get_def dict_setitem_def)

text \<open>
  Claim C3, amended. \<^verbatim>\<open>dict_to_flatdict\<close> is a total function: it has no operation that
  raises, and its recursion ends on every nested dictionary. \<^verbatim>\<open>flatdict_to_dict\<close> with the
  default mapping class returns, without an error, on every flat dictionary in which no
  \<open>CompoundKey\<close> is empty and no entry's path has the path of an earlier entry as a
  proper prefix, whatever its mix of \<open>CompoundKey\<close> entries and other entries (the path
  of another key is the key alone); and it returns on every flat dictionary that
  \<^verbatim>\<open>dict_to_flatdict\<close> makes, empty nested dictionaries in the input included.
\<close>

theorem unflatten_returns:
  "(no_conflict [] dct \<longrightarrow> (\<exists>r. flatdict_to_dict dct None = Inr r))
   \<and> (wf_dict m \<longrightarrow> (\<exists>r. flatdict_to_dict (dict_to_flatdict m None) None = Inr r))"
  using unflatten_no_conflict [of dct] unflatten_flatten_prune [of m] by blast

theorem unflatten_returns_witness:
  "no_conflict []
     [(CompoundKey [KStr ''a'', KStr ''b''], VInt 1), (Plain (KStr ''c''), VInt 2),
      (CompoundKey [KStr ''a''], VInt 3)]
   \<and> wf_dict [(KStr ''a'', VDict [])]
   \<and> (\<exists>r. flatdict_to_dict
       [(CompoundKey [KStr ''a'', KStr ''b''], VInt 1), (Plain (KStr ''c''), VInt 2),
        (CompoundKey [KStr ''a''], VInt 3)] None = Inr r)
   \<and> (\<exists>r. flatdict_to_dict (dict_to_flatdict [(KStr ''a'', VDict [])] None) None = Inr r)"
proof -
  let ?d = "[(CompoundKey [KStr ''a'', KStr ''b''], VInt 1), (Plain (KStr ''c''), VInt 2),
      (CompoundKey [KStr ''a''], VInt 3)]"
  let ?m = "[(KStr ''a'', VDict [])]"
  have c: "no_conflict [] ?d" by simp
  have w: "wf_dict ?m" by (simp add: keys_def)
  from unflatten_returns [of ?d ?m] c w show ?thesis by blast
qed

section \<open>Properties of merge\_dicts\<close>






















section \<open>Properties of merge\_dicts on a store\<close>















end
